theory Spec2Isabelle
  imports Complex_Main
begin

section \<open>Data model (src/services/types.ts)\<close>

text \<open>
  The interfaces of \<^verbatim>\<open>types.ts\<close> as records and the string-literal unions as datatypes.
  An optional field (\<^verbatim>\<open>thought?\<close>, \<^verbatim>\<open>answer?\<close>) or a nullable one (\<^verbatim>\<open>ChatMessage | null\<close>)
  is an \<open>option\<close>. A field name that is already taken in HOL, is an outer keyword or is
  used by two interfaces carries a suffix or prefix: \<^verbatim>\<open>id\<close> is \<open>msg_id\<close>, the two
  \<^verbatim>\<open>timestamp\<close> fields are \<open>step_timestamp\<close> and \<open>msg_timestamp\<close>, the status
  \<^verbatim>\<open>'error'\<close> is \<open>error_status\<close>, the result types \<^verbatim>\<open>'text'\<close> and \<^verbatim>\<open>'empty'\<close> are
  \<open>text_result\<close> and \<open>empty_result\<close>. Step numbers and step counts are JavaScript numbers
  that the protocol keeps integral, so they are \<open>int\<close>; the execution time is a \<open>real\<close>.
\<close>

datatype category = schema_exploration | data_retrieval | validation | unknown

record action =
  tool :: string
  category :: category
  description :: string
  purpose :: string
  input :: string
  raw_input :: string

datatype result_type =
  table_list | schema_info | sql_result | tabular_data | validation_result
  | text_result | empty_result

record observation =
  result :: string
  result_type :: result_type
  success :: bool

record ReActStep =
  step_number :: int
  thought :: "string option"
  action :: action
  observation :: "observation option"
  step_timestamp :: string

datatype status = thinking | processing | completed | error_status

record ChatMessage =
  msg_id :: string
  question :: string
  answer :: "string option"
  steps :: "ReActStep list"
  status :: status
  execution_time :: "real option"
  msg_timestamp :: string
  error_message :: "string option"

record ChatState =
  messages :: "ChatMessage list"
  currentMessage :: "ChatMessage option"
  isStreaming :: bool
  error :: "string option"

section \<open>The reducer (src/context/ChatContext.tsx)\<close>

definition initialState :: ChatState where
  "initialState =
     \<lparr>messages = [], currentMessage = None, isStreaming = False, error = None\<rparr>"

text \<open>
  The actions of \<^verbatim>\<open>ChatAction\<close>, each with its payload. \<^verbatim>\<open>START_STREAMING\<close> reads the
  clock (\<^verbatim>\<open>new Date().toISOString()\<close>) inside the reducer; the model takes that reading
  as a third component of the payload.
\<close>

datatype ChatAction =
  START_STREAMING string string string
  | STOP_STREAMING
  | ADD_STEP ReActStep
  | UPDATE_STEP int observation
  | SET_FINAL_ANSWER string int "real option"
  | SET_ERROR string
  | CLEAR_ERROR
  | CLEAR_MESSAGES
  | COMPLETE_MESSAGE

fun chatReducer :: "ChatState \<Rightarrow> ChatAction \<Rightarrow> ChatState" where
  "chatReducer state (START_STREAMING q messageId now) =
     (let newMessage =
        \<lparr>msg_id = messageId, question = q, answer = None, steps = [],
         status = thinking, execution_time = None, msg_timestamp = now,
         error_message = None\<rparr>
      in state\<lparr>currentMessage := Some newMessage, isStreaming := True, error := None\<rparr>)"
| "chatReducer state STOP_STREAMING = state\<lparr>isStreaming := False\<rparr>"
| "chatReducer state (ADD_STEP step) =
     (case currentMessage state of
        None \<Rightarrow> state
      | Some cm \<Rightarrow>
          (let updatedMessage = cm\<lparr>steps := steps cm @ [step], status := processing\<rparr>
           in state\<lparr>currentMessage := Some updatedMessage\<rparr>))"
| "chatReducer state (UPDATE_STEP stepNumber obs) =
     (case currentMessage state of
        None \<Rightarrow> state
      | Some cm \<Rightarrow>
          (let updatedSteps =
                 map (\<lambda>step. if step_number step = stepNumber
                              then step\<lparr>observation := Some obs\<rparr> else step)
                     (steps cm);
               updatedMessage = cm\<lparr>steps := updatedSteps\<rparr>
           in state\<lparr>currentMessage := Some updatedMessage\<rparr>))"
| "chatReducer state (SET_FINAL_ANSWER ans totalSteps executionTime) =
     (case currentMessage state of
        None \<Rightarrow> state
      | Some cm \<Rightarrow>
          (let completedMessage =
                 cm\<lparr>answer := Some ans, status := completed,
                    execution_time := executionTime\<rparr>
           in state\<lparr>currentMessage := Some completedMessage,
                    messages := messages state @ [completedMessage],
                    isStreaming := False\<rparr>))"
| "chatReducer state (SET_ERROR err) =
     (let updatedMessage =
            (case currentMessage state of
               None \<Rightarrow> None
             | Some cm \<Rightarrow> Some (cm\<lparr>status := error_status, error_message := Some err\<rparr>))
      in state\<lparr>currentMessage := updatedMessage,
               error := Some err,
               isStreaming := False,
               messages := (case updatedMessage of
                              Some um \<Rightarrow> messages state @ [um]
                            | None \<Rightarrow> messages state)\<rparr>)"
| "chatReducer state CLEAR_ERROR = state\<lparr>error := None\<rparr>"
| "chatReducer state CLEAR_MESSAGES = initialState"
| "chatReducer state COMPLETE_MESSAGE =
     (case currentMessage state of
        None \<Rightarrow> state
      | Some cm \<Rightarrow> state\<lparr>currentMessage := None, isStreaming := False\<rparr>)"

text \<open>
  The operations the provider exposes. Each dispatches one action; the public
  \<^verbatim>\<open>stopStreaming\<close> first calls the handler the controller registered and then
  dispatches \<^verbatim>\<open>STOP_STREAMING\<close>.
\<close>

definition startStreaming :: "ChatState \<Rightarrow> string \<Rightarrow> string \<Rightarrow> string \<Rightarrow> ChatState" where
  "startStreaming s q messageId now = chatReducer s (START_STREAMING q messageId now)"

definition addStep :: "ChatState \<Rightarrow> ReActStep \<Rightarrow> ChatState" where
  "addStep s step = chatReducer s (ADD_STEP step)"

definition updateStep :: "ChatState \<Rightarrow> int \<Rightarrow> observation \<Rightarrow> ChatState" where
  "updateStep s stepNumber obs = chatReducer s (UPDATE_STEP stepNumber obs)"

definition setFinalAnswer :: "ChatState \<Rightarrow> string \<Rightarrow> int \<Rightarrow> real option \<Rightarrow> ChatState" where
  "setFinalAnswer s ans totalSteps executionTime =
     chatReducer s (SET_FINAL_ANSWER ans totalSteps executionTime)"

definition setError :: "ChatState \<Rightarrow> string \<Rightarrow> ChatState" where
  "setError s err = chatReducer s (SET_ERROR err)"

definition clearError :: "ChatState \<Rightarrow> ChatState" where
  "clearError s = chatReducer s CLEAR_ERROR"

definition completeMessage :: "ChatState \<Rightarrow> ChatState" where
  "completeMessage s = chatReducer s COMPLETE_MESSAGE"

definition clearMessages :: "ChatState \<Rightarrow> ChatState" where
  "clearMessages s = chatReducer s CLEAR_MESSAGES"

section \<open>The controller (src/hooks/useChatController.ts)\<close>

text \<open>
  The decoded events (\<^verbatim>\<open>ChatStreamEvent\<close>); the last argument of each is the timestamp.
  \<open>error_event\<close> carries the optional top-level \<^verbatim>\<open>message\<close> that the handler reads and
  the \<^verbatim>\<open>error.message\<close> and \<^verbatim>\<open>error.type\<close> of the interface. \<open>other_event\<close> is a parsed
  value whose \<^verbatim>\<open>type\<close> is none of the known tags (the \<^verbatim>\<open>default\<close> branch).
\<close>

datatype ChatStreamEvent =
  execution_start string string string
  | agent_action int "string option" action string
  | agent_observation int observation string
  | agent_finish string int string
  | execution_summary real bool string
  | execution_complete string
  | heartbeat string
  | error_event "string option" string string string
  | other_event string

text \<open>JavaScript's \<^verbatim>\<open>a || b\<close> on an optional string: absent and empty are both falsy.\<close>

definition or_default :: "string option \<Rightarrow> string \<Rightarrow> string" where
  "or_default v d = (case v of None \<Rightarrow> d | Some m \<Rightarrow> if m = [] then d else m)"

fun handleStreamEvent :: "ChatState \<Rightarrow> ChatStreamEvent \<Rightarrow> ChatState" where
  "handleStreamEvent s (execution_start q query_id ts) = clearError s"
| "handleStreamEvent s (agent_action n th act ts) =
     addStep s \<lparr>step_number = n, thought = th, action = act, observation = None,
                step_timestamp = ts\<rparr>"
| "handleStreamEvent s (agent_observation n obs ts) = updateStep s n obs"
| "handleStreamEvent s (agent_finish final_answer total_steps ts) =
     setFinalAnswer s final_answer total_steps None"
| "handleStreamEvent s (execution_summary t ok ts) = s"
| "handleStreamEvent s (execution_complete ts) = completeMessage s"
| "handleStreamEvent s (heartbeat ts) = s"
| "handleStreamEvent s (error_event msg emsg etype ts) =
     setError s (or_default msg ''An error occurred during processing'')"
| "handleStreamEvent s (other_event tag) = s"

subsection \<open>String operations of the decode loop\<close>

text \<open>
  \<^verbatim>\<open>String.prototype.trim\<close>, \<^verbatim>\<open>startsWith\<close>, \<^verbatim>\<open>substring\<close> and \<^verbatim>\<open>split('\n\n')\<close> on
  \<open>string\<close>. A \<open>char\<close> is a code unit below 256. \<open>isWhiteSpace\<close> holds of the code
  units in that range that \<open>trim\<close> strips, the white space and line terminators of
  JavaScript: tab (U+0009), line feed (U+000A), vertical tab (U+000B), form feed
  (U+000C), carriage return (U+000D), space (U+0020) and no-break space (U+00A0).
\<close>

definition isWhiteSpace :: "char \<Rightarrow> bool" where
  "isWhiteSpace c \<longleftrightarrow>
     c = CHR 0x09 \<or> c = CHR 0x0A \<or> c = CHR 0x0B \<or> c = CHR 0x0C \<or> c = CHR 0x0D
     \<or> c = CHR 0x20 \<or> c = CHR 0xA0"

definition trim :: "string \<Rightarrow> string" where
  "trim s = rev (dropWhile isWhiteSpace (rev (dropWhile isWhiteSpace s)))"

definition startsWith :: "string \<Rightarrow> string \<Rightarrow> bool" where
  "startsWith s p \<longleftrightarrow> take (length p) s = p"

definition substring :: "string \<Rightarrow> nat \<Rightarrow> string" where
  "substring s n = drop n s"

text \<open>
  \<^verbatim>\<open>s.split('\n\n')\<close>: the pieces between the non-overlapping occurrences of two line
  feeds, found from the left. \<open>split_from\<close> scans the text with the piece collected so
  far as its first argument. The result is never empty; its last element is the text
  after the last separator.
\<close>

fun split_from :: "string \<Rightarrow> string \<Rightarrow> string list" where
  "split_from cur [] = [cur]"
| "split_from cur [c] = [cur @ [c]]"
| "split_from cur (c # d # cs) =
     (if c = CHR 0x0A \<and> d = CHR 0x0A then cur # split_from [] cs
      else split_from (cur @ [c]) (d # cs))"

definition split_nn :: "string \<Rightarrow> string list" where
  "split_nn s = split_from [] s"

subsection \<open>The decode loop and sendMessage\<close>

text \<open>
  \<^verbatim>\<open>JSON.parse\<close> followed by the cast to \<^verbatim>\<open>ChatStreamEvent\<close> is the parameter \<open>parse\<close>:
  \<open>None\<close> when the \<^verbatim>\<open>try\<close> block throws (the payload is not JSON), the event otherwise.
  \<open>process_record\<close> is the body of the \<^verbatim>\<open>for\<close> loop, \<open>for_events\<close> the loop,
  \<open>read_loop\<close> the \<^verbatim>\<open>while (true)\<close> loop over the chunks the reader delivers, with
  \<^verbatim>\<open>accumulatedData\<close> as its first argument.
\<close>

definition process_record ::
  "(string \<Rightarrow> ChatStreamEvent option) \<Rightarrow> ChatState \<Rightarrow> string \<Rightarrow> ChatState" where
  "process_record parse s eventString =
     (if startsWith eventString ''data:''
      then (let jsonString = trim (substring eventString 5)
            in case parse jsonString of
                 Some eventData \<Rightarrow> handleStreamEvent s eventData
               | None \<Rightarrow> s)
      else s)"

fun for_events ::
  "(string \<Rightarrow> ChatStreamEvent option) \<Rightarrow> ChatState \<Rightarrow> string list \<Rightarrow> ChatState" where
  "for_events parse s [] = s"
| "for_events parse s (eventString # rest) =
     for_events parse (process_record parse s eventString) rest"

fun read_loop ::
  "(string \<Rightarrow> ChatStreamEvent option) \<Rightarrow> string \<Rightarrow> ChatState \<Rightarrow> string list \<Rightarrow> ChatState" where
  "read_loop parse accumulatedData s [] = s"
| "read_loop parse accumulatedData s (chunk # chunks) =
     (let events = split_nn (accumulatedData @ chunk)
      in read_loop parse (last events) (for_events parse s (butlast events)) chunks)"

text \<open>
  What the transport gives \<^verbatim>\<open>sendMessage\<close>: \<^verbatim>\<open>fetch\<close> rejects (with an \<^verbatim>\<open>Error\<close> and
  its message, or with another value), the response is not ok or has no body (with its
  status as text), or the body delivers chunks and then either ends or fails.
\<close>

datatype response =
  fetch_rejected "string option"
  | not_ok string
  | body "string list" "string option option"

definition catch_message :: "string option \<Rightarrow> string" where
  "catch_message e = (case e of Some m \<Rightarrow> m | None \<Rightarrow> ''Failed to connect to the server'')"

definition catch_error :: "ChatState \<Rightarrow> string option \<Rightarrow> string \<Rightarrow> ChatState" where
  "catch_error s e now =
     (let errorMessage = catch_message e
      in handleStreamEvent s (error_event (Some errorMessage) errorMessage ''unknown'' now))"

text \<open>
  \<open>sendMessage_begin\<close> is \<^verbatim>\<open>sendMessage\<close> up to its first \<^verbatim>\<open>await\<close>: the check of the
  question and the dispatch of \<^verbatim>\<open>START_STREAMING\<close>. The message id and the clock
  reading are arguments. \<open>sendMessage\<close> is the whole call when nothing else is dispatched
  while it waits.
\<close>

definition sendMessage_begin :: "ChatState \<Rightarrow> string \<Rightarrow> string \<Rightarrow> string \<Rightarrow> ChatState" where
  "sendMessage_begin s q messageId now =
     (if trim q = [] then setError s ''Question cannot be empty''
      else startStreaming s q messageId now)"

definition sendMessage ::
  "(string \<Rightarrow> ChatStreamEvent option) \<Rightarrow> ChatState \<Rightarrow> string \<Rightarrow> string \<Rightarrow> string
     \<Rightarrow> response \<Rightarrow> ChatState" where
  "sendMessage parse s q messageId now resp =
     (if trim q = [] then sendMessage_begin s q messageId now
      else (let s1 = sendMessage_begin s q messageId now
            in case resp of
                 fetch_rejected e \<Rightarrow> catch_error s1 e now
               | not_ok st \<Rightarrow> catch_error s1 (Some (''HTTP error! status: '' @ st)) now
               | body chunks fin \<Rightarrow>
                   (let s2 = read_loop parse [] s1 chunks
                    in case fin of None \<Rightarrow> s2 | Some e \<Rightarrow> catch_error s2 e now)))"

text \<open>The controller's \<^verbatim>\<open>stopStreaming\<close> only logs a warning.\<close>

definition controller_stopStreaming :: "ChatState \<Rightarrow> ChatState" where
  "controller_stopStreaming s = s"

text \<open>The provider's public \<^verbatim>\<open>stopStreaming\<close>, with the controller's handler registered.\<close>

definition stopStreaming :: "ChatState \<Rightarrow> ChatState" where
  "stopStreaming s = chatReducer (controller_stopStreaming s) STOP_STREAMING"

text \<open>
  \<^verbatim>\<open>handleSubmit\<close> of the input widget (src/components/Chat/MessageInput.tsx), the caller
  of \<^verbatim>\<open>sendMessage\<close>, as far as it acts on the chat state.
\<close>

definition handleSubmit ::
  "(string \<Rightarrow> ChatStreamEvent option) \<Rightarrow> ChatState \<Rightarrow> string \<Rightarrow> string \<Rightarrow> string
     \<Rightarrow> response \<Rightarrow> ChatState" where
  "handleSubmit parse s q messageId now resp =
     (if trim q = [] \<or> isStreaming s then s
      else sendMessage parse s (trim q) messageId now resp)"

text \<open>
  The states the public operations reach from the initial state: \<^verbatim>\<open>sendMessage\<close> (up to
  its first suspension), \<^verbatim>\<open>stopStreaming\<close>, and the application of one decoded event (the
  events sendMessage synthesises in its \<^verbatim>\<open>catch\<close> are among them), in any order.
\<close>

inductive reachable :: "ChatState \<Rightarrow> bool" where
  reach_init: "reachable initialState"
| reach_send: "reachable s \<Longrightarrow> reachable (sendMessage_begin s q messageId now)"
| reach_stop: "reachable s \<Longrightarrow> reachable (stopStreaming s)"
| reach_event: "reachable s \<Longrightarrow> reachable (handleStreamEvent s ev)"

section \<open>Reconnection (src/services/eventSource.ts)\<close>

text \<open>
  The fields of \<^verbatim>\<open>StreamingService\<close> that \<^verbatim>\<open>handleConnectionError\<close> reads and writes;
  \<open>reconnectTimeout\<close> holds the delay in milliseconds of the timer last set. The calls
  the function makes are returned as a list of effects, in the order of the source; the
  text of the reconnecting notice is kept as its two numbers.
\<close>

datatype ConnectionStatus = disconnected | connecting | connected | connection_error

datatype notice = reconnecting_notice nat nat | plain_notice string

datatype effect = notifyStatusChange ConnectionStatus notice | setTimeout_reconnect nat

record StreamingService =
  reconnectAttempts :: nat
  maxReconnectAttempts :: nat
  reconnectTimeout :: "nat option"
  currentQuestion :: "string option"

definition new_StreamingService :: StreamingService where
  "new_StreamingService =
     \<lparr>reconnectAttempts = 0, maxReconnectAttempts = 3, reconnectTimeout = None,
      currentQuestion = None\<rparr>"

definition handleConnectionError :: "StreamingService \<Rightarrow> StreamingService \<times> effect list" where
  "handleConnectionError sv =
     (if reconnectAttempts sv < maxReconnectAttempts sv
      then (let n = reconnectAttempts sv + 1;
                delay = min (1000 * 2 ^ (n - 1)) 10000
            in (sv\<lparr>reconnectAttempts := n, reconnectTimeout := Some delay\<rparr>,
                [notifyStatusChange connecting
                   (reconnecting_notice n (maxReconnectAttempts sv)),
                 setTimeout_reconnect delay]))
      else (sv, [notifyStatusChange connection_error
                   (plain_notice ''Connection failed after maximum retry attempts'')]))"

text \<open>\<open>k\<close> connection errors in a row, with no open and no message in between.\<close>

fun connection_errors :: "nat \<Rightarrow> StreamingService \<Rightarrow> StreamingService \<times> effect list" where
  "connection_errors 0 sv = (sv, [])"
| "connection_errors (Suc k) sv =
     (let (sv1, effs) = handleConnectionError sv;
          (sv2, effs') = connection_errors k sv1
      in (sv2, effs @ effs'))"

section \<open>Properties named by the specification\<close>

text \<open>
  A turn is in flight when \<^verbatim>\<open>currentMessage\<close> is present and its status is neither
  \<^verbatim>\<open>completed\<close> nor \<^verbatim>\<open>error\<close>.
\<close>

definition in_flight :: "ChatState \<Rightarrow> bool" where
  "in_flight s =
     (case currentMessage s of
        None \<Rightarrow> False
      | Some m \<Rightarrow> status m \<noteq> completed \<and> status m \<noteq> error_status)"

text \<open>The delay the specification gives for attempt \<open>n\<close>: \<open>min(base * 2^(n-1), cap)\<close>.\<close>

definition spec_backoff :: "nat \<Rightarrow> nat \<Rightarrow> nat \<Rightarrow> nat" where
  "spec_backoff base cap n = min (base * 2 ^ (n - 1)) cap"

text \<open>
  The framing of the stream. \<open>blank_line\<close> is the separator \<^verbatim>\<open>'\n\n'\<close>. A text is one
  record when, followed by the separator, it splits into itself and an empty rest; a
  stream prefix ends at a record boundary when nothing is left over after its last
  separator. A record is malformed when it carries the data marker and its payload does
  not parse.
\<close>

definition blank_line :: string where
  "blank_line = [CHR 0x0A, CHR 0x0A]"

definition single_record :: "string \<Rightarrow> bool" where
  "single_record r \<longleftrightarrow> split_nn (r @ blank_line) = [r, []]"

definition at_record_boundary :: "string \<Rightarrow> bool" where
  "at_record_boundary p \<longleftrightarrow> last (split_nn p) = []"

definition malformed :: "(string \<Rightarrow> ChatStreamEvent option) \<Rightarrow> string \<Rightarrow> bool" where
  "malformed parse r \<longleftrightarrow> startsWith r ''data:'' \<and> parse (trim (substring r 5)) = None"

section \<open>Example states\<close>

definition example_action :: action where
  "example_action =
     \<lparr>tool = ''list_tables'', category = schema_exploration, description = ''List tables'',
      purpose = ''explore'', input = [], raw_input = []\<rparr>"

definition example_thinking :: ChatState where
  "example_thinking = sendMessage_begin initialState ''Q1'' ''msg_1'' ''t0''"

definition example_streaming :: ChatState where
  "example_streaming =
     handleStreamEvent example_thinking (agent_action 1 None example_action ''t1'')"

definition example_turn :: ChatMessage where
  "example_turn =
     \<lparr>msg_id = ''msg_1'', question = ''Q1'', answer = None,
      steps = [\<lparr>step_number = 1, thought = None, action = example_action,
                observation = None, step_timestamp = ''t1''\<rparr>],
      status = processing, execution_time = None, msg_timestamp = ''t0'',
      error_message = None\<rparr>"

text \<open>
  An example stream: an \<^verbatim>\<open>agent_finish\<close> record, a record whose payload is not JSON, and
  an \<^verbatim>\<open>execution_complete\<close> record. \<open>example_parse\<close> is \<^verbatim>\<open>JSON.parse\<close> on these three
  payloads.
\<close>

definition quoted :: "string \<Rightarrow> string" where
  "quoted s = CHR 0x22 # s @ [CHR 0x22]"

definition example_finish_json :: string where
  "example_finish_json =
     ''{'' @ quoted ''type'' @ '':'' @ quoted ''agent_finish'' @ '',''
       @ quoted ''final_answer'' @ '':'' @ quoted ''USA'' @ '',''
       @ quoted ''total_steps'' @ '':1,''
       @ quoted ''timestamp'' @ '':'' @ quoted ''t2'' @ ''}''"

definition example_complete_json :: string where
  "example_complete_json =
     ''{'' @ quoted ''type'' @ '':'' @ quoted ''execution_complete'' @ '',''
       @ quoted ''timestamp'' @ '':'' @ quoted ''t3'' @ ''}''"

definition example_parse :: "string \<Rightarrow> ChatStreamEvent option" where
  "example_parse j =
     (if j = example_finish_json then Some (agent_finish ''USA'' 1 ''t2'')
      else if j = example_complete_json then Some (execution_complete ''t3'')
      else None)"

definition example_bad_record :: string where
  "example_bad_record = ''data: {oops''"

definition example_finish_record :: string where
  "example_finish_record = ''data: '' @ example_finish_json"

definition example_complete_record :: string where
  "example_complete_record = ''data: '' @ example_complete_json"

definition example_prefix :: string where
  "example_prefix = example_finish_record @ blank_line"

definition example_suffix :: string where
  "example_suffix = example_complete_record @ blank_line"

section \<open>The example states, evaluated\<close>

lemma trim_Q1: "trim ''Q1'' = ''Q1''"
  by (simp add: trim_def isWhiteSpace_def)

lemma trim_Q2: "trim ''Q2'' = ''Q2''"
  by (simp add: trim_def isWhiteSpace_def)

text \<open>A question of white space only, the no-break space included, is blank.\<close>

lemma trim_blank: "trim [CHR 0xA0, CHR 0x20, CHR 0x09, CHR 0x0A] = []"
  by (simp add: trim_def isWhiteSpace_def)

lemma sendMessage_begin_blank:
  "sendMessage_begin s [CHR 0xA0] messageId now = setError s ''Question cannot be empty''"
  by (simp add: sendMessage_begin_def trim_def isWhiteSpace_def)

lemma example_thinking_eq:
  "example_thinking =
     \<lparr>messages = [],
      currentMessage =
        Some \<lparr>msg_id = ''msg_1'', question = ''Q1'', answer = None, steps = [],
              status = thinking, execution_time = None, msg_timestamp = ''t0'',
              error_message = None\<rparr>,
      isStreaming = True, error = None\<rparr>"
  by (simp add: example_thinking_def sendMessage_begin_def trim_Q1 startStreaming_def
      initialState_def)

lemma example_streaming_eq:
  "example_streaming =
     \<lparr>messages = [], currentMessage = Some example_turn, isStreaming = True, error = None\<rparr>"
  by (simp add: example_streaming_def example_thinking_eq example_turn_def addStep_def)

lemma reachable_example_thinking: "reachable example_thinking"
  unfolding example_thinking_def by (rule reach_send [OF reach_init])

section \<open>The reducer's transitions\<close>

text \<open>
  C1. With a current turn, \<^verbatim>\<open>agent_finish\<close> leaves \<^verbatim>\<open>currentMessage\<close> present: the state
  after the event still holds the (now completed) turn, so the claim that it is absent
  afterwards fails on the example state.
\<close>

theorem final_answer_keeps_current_counterexample:
  "currentMessage example_streaming \<noteq> None
   \<and> currentMessage (handleStreamEvent example_streaming (agent_finish ''USA'' 1 ''t2''))
       \<noteq> None"
  by (simp add: example_streaming_eq setFinalAnswer_def Let_def)

text \<open>
  C1, as the code has it. With a current turn \<open>m\<close>, \<^verbatim>\<open>agent_finish\<close> dispatches
  \<^verbatim>\<open>SET_FINAL_ANSWER\<close>, which appends exactly one turn to \<^verbatim>\<open>messages\<close> (the length grows
  by one): \<open>m\<close> with the answer set and status \<^verbatim>\<open>completed\<close>. It clears \<^verbatim>\<open>isStreaming\<close>
  and keeps that completed turn as \<^verbatim>\<open>currentMessage\<close>; the turn becomes absent only with
  the following \<^verbatim>\<open>COMPLETE_MESSAGE\<close> (\<^verbatim>\<open>execution_complete\<close>), which appends nothing.
\<close>

theorem final_answer_appends:
  assumes "currentMessage s = Some m"
  shows "handleStreamEvent s (agent_finish a n ts) = chatReducer s (SET_FINAL_ANSWER a n None)
    \<and> messages (chatReducer s (SET_FINAL_ANSWER a n t))
        = messages s @ [m\<lparr>answer := Some a, status := completed, execution_time := t\<rparr>]
    \<and> length (messages (chatReducer s (SET_FINAL_ANSWER a n t))) = length (messages s) + 1
    \<and> currentMessage (chatReducer s (SET_FINAL_ANSWER a n t))
        = Some (m\<lparr>answer := Some a, status := completed, execution_time := t\<rparr>)
    \<and> \<not> isStreaming (chatReducer s (SET_FINAL_ANSWER a n t))
    \<and> currentMessage (chatReducer (chatReducer s (SET_FINAL_ANSWER a n t)) COMPLETE_MESSAGE)
        = None
    \<and> messages (chatReducer (chatReducer s (SET_FINAL_ANSWER a n t)) COMPLETE_MESSAGE)
        = messages s @ [m\<lparr>answer := Some a, status := completed, execution_time := t\<rparr>]"
  using assms by (simp add: setFinalAnswer_def Let_def)

theorem final_answer_appends_witness:
  "currentMessage example_streaming = Some example_turn
   \<and> messages (chatReducer example_streaming (SET_FINAL_ANSWER ''USA'' 1 None))
       = [example_turn\<lparr>answer := Some ''USA'', status := completed, execution_time := None\<rparr>]
   \<and> currentMessage (chatReducer example_streaming (SET_FINAL_ANSWER ''USA'' 1 None))
       = Some (example_turn\<lparr>answer := Some ''USA'', status := completed,
                 execution_time := None\<rparr>)
   \<and> currentMessage
         (chatReducer (chatReducer example_streaming (SET_FINAL_ANSWER ''USA'' 1 None))
            COMPLETE_MESSAGE) = None"
proof -
  have c: "currentMessage example_streaming = Some example_turn"
    and m: "messages example_streaming = []"
    by (simp_all add: example_streaming_eq)
  from final_answer_appends
         [where a = "''USA''" and n = 1 and ts = "''t2''" and t = None, OF c] c m
  show ?thesis by simp
qed

text \<open>
  C4. \<^verbatim>\<open>stopStreaming\<close> in mid-stream leaves \<^verbatim>\<open>currentMessage\<close> present, so the claim that
  it becomes absent fails on the example state.
\<close>

theorem stop_keeps_current_counterexample:
  "isStreaming example_streaming \<and> currentMessage example_streaming \<noteq> None
   \<and> currentMessage (stopStreaming example_streaming) \<noteq> None"
  by (simp add: example_streaming_eq stopStreaming_def controller_stopStreaming_def)

text \<open>
  C4, as the code has it. With a turn \<open>m\<close> in flight, \<^verbatim>\<open>stopStreaming\<close> yields a state where
  \<^verbatim>\<open>isStreaming\<close> is false, \<^verbatim>\<open>messages\<close> and \<^verbatim>\<open>error\<close> are unchanged (no entry appended)
  and \<^verbatim>\<open>currentMessage\<close> is still \<open>m\<close>.
\<close>

theorem stop_clears_flag_only:
  assumes "currentMessage s = Some m" and "isStreaming s"
  shows "\<not> isStreaming (stopStreaming s) \<and> currentMessage (stopStreaming s) = Some m
     \<and> messages (stopStreaming s) = messages s \<and> error (stopStreaming s) = error s"
  using assms by (simp add: stopStreaming_def controller_stopStreaming_def)

theorem stop_clears_flag_only_witness:
  "currentMessage example_streaming = Some example_turn \<and> isStreaming example_streaming
   \<and> \<not> isStreaming (stopStreaming example_streaming)
   \<and> currentMessage (stopStreaming example_streaming) = Some example_turn
   \<and> messages (stopStreaming example_streaming) = []"
proof -
  have c: "currentMessage example_streaming = Some example_turn"
    and i: "isStreaming example_streaming"
    and m: "messages example_streaming = []"
    by (simp_all add: example_streaming_eq)
  from stop_clears_flag_only [OF c i] c i m show ?thesis by simp
qed

text \<open>
  C5. A second \<^verbatim>\<open>agent_action\<close> with step number 1 on a turn that already has step 1
  gives a turn whose steps carry the step numbers 1 and 1: the step is appended, not
  replaced.
\<close>

theorem duplicate_step_counterexample:
  "map_option (map step_number \<circ> steps) (currentMessage example_streaming) = Some [1]
   \<and> map_option (map step_number \<circ> steps)
       (currentMessage (handleStreamEvent example_streaming
          (agent_action 1 None example_action ''t2''))) = Some [1, 1]"
  by (simp add: example_streaming_eq example_turn_def addStep_def)

text \<open>
  C5, as the code has it. When the current turn \<open>m\<close> already has a step with the step
  number of \<open>st\<close>, \<^verbatim>\<open>ADD_STEP\<close> appends \<open>st\<close> at the end of the steps (the list grows by
  one), sets the status to \<^verbatim>\<open>processing\<close>, and the step numbers of the turn are then not
  distinct.
\<close>

theorem add_step_appends:
  assumes "currentMessage s = Some m"
    and "step_number st \<in> step_number ` set (steps m)"
  shows "currentMessage (chatReducer s (ADD_STEP st))
           = Some (m\<lparr>steps := steps m @ [st], status := processing\<rparr>)
     \<and> length (steps (m\<lparr>steps := steps m @ [st], status := processing\<rparr>))
           = length (steps m) + 1
     \<and> \<not> distinct (map step_number
                      (steps (m\<lparr>steps := steps m @ [st], status := processing\<rparr>)))"
  using assms by (auto simp: Let_def)

theorem add_step_appends_witness:
  "currentMessage example_streaming = Some example_turn
   \<and> step_number (hd (steps example_turn)) \<in> step_number ` set (steps example_turn)
   \<and> currentMessage (chatReducer example_streaming (ADD_STEP (hd (steps example_turn))))
       = Some (example_turn\<lparr>steps := steps example_turn @ [hd (steps example_turn)],
                 status := processing\<rparr>)
   \<and> \<not> distinct (map step_number (steps example_turn @ [hd (steps example_turn)]))"
proof -
  have c: "currentMessage example_streaming = Some example_turn"
    by (simp add: example_streaming_eq)
  have d: "step_number (hd (steps example_turn)) \<in> step_number ` set (steps example_turn)"
    by (simp add: example_turn_def)
  from add_step_appends [OF c d] c d show ?thesis by simp
qed

text \<open>
  C6. With no current turn, an \<^verbatim>\<open>error\<close> event changes the state: on the initial state
  the result differs from the initial state.
\<close>

theorem error_without_turn_counterexample:
  "currentMessage initialState = None
   \<and> handleStreamEvent initialState (error_event (Some ''boom'') ''boom'' ''server'' ''t1'')
       \<noteq> initialState"
  by (simp add: initialState_def setError_def or_default_def)

text \<open>
  C6, as the code has it. With no current turn, \<^verbatim>\<open>agent_finish\<close> (\<^verbatim>\<open>SET_FINAL_ANSWER\<close>) is a
  no-op; an \<^verbatim>\<open>error\<close> event (\<^verbatim>\<open>SET_ERROR\<close>) leaves \<^verbatim>\<open>messages\<close> and \<^verbatim>\<open>currentMessage\<close>
  unchanged, sets the top-level \<^verbatim>\<open>error\<close> to the event's message (the default text when
  the message is missing or empty) and sets \<^verbatim>\<open>isStreaming\<close> to false.
\<close>

theorem no_turn_finish_noop_error_sets_banner:
  assumes "currentMessage s = None"
  shows "handleStreamEvent s (agent_finish a n ts) = s
     \<and> chatReducer s (SET_FINAL_ANSWER a n t) = s
     \<and> handleStreamEvent s (error_event msg emsg etype ts)
         = s\<lparr>error := Some (or_default msg ''An error occurred during processing''),
             isStreaming := False\<rparr>
     \<and> chatReducer s (SET_ERROR e) = s\<lparr>error := Some e, isStreaming := False\<rparr>"
  using assms by (simp add: setFinalAnswer_def setError_def)

theorem no_turn_finish_noop_error_sets_banner_witness:
  "currentMessage initialState = None
   \<and> handleStreamEvent initialState (agent_finish ''USA'' 1 ''t1'') = initialState
   \<and> handleStreamEvent initialState (error_event None ''boom'' ''server'' ''t1'')
       = \<lparr>messages = [], currentMessage = None, isStreaming = False,
          error = Some ''An error occurred during processing''\<rparr>"
proof -
  have c: "currentMessage initialState = None" by (simp add: initialState_def)
  from no_turn_finish_noop_error_sets_banner
         [where s = initialState and a = "''USA''" and n = 1 and ts = "''t1''"
            and msg = None and emsg = "''boom''" and etype = "''server''", OF c] c
  show ?thesis by (simp add: initialState_def or_default_def)
qed

text \<open>
  C7. \<^verbatim>\<open>UPDATE_STEP\<close> is idempotent: in every state, applying it twice with the same step
  number and observation gives the state a single application gives; so does applying
  the same \<^verbatim>\<open>agent_observation\<close> event twice.
\<close>

theorem update_step_idempotent:
  "chatReducer (chatReducer s (UPDATE_STEP n obs)) (UPDATE_STEP n obs)
     = chatReducer s (UPDATE_STEP n obs)
   \<and> handleStreamEvent (handleStreamEvent s (agent_observation n obs ts))
        (agent_observation n obs ts)
     = handleStreamEvent s (agent_observation n obs ts)"
  by (cases "currentMessage s") (simp_all add: updateStep_def o_def cong: map_cong)

text \<open>
  C10. \<^verbatim>\<open>clearMessages\<close> (\<^verbatim>\<open>CLEAR_MESSAGES\<close>) gives the initial state from every state: no
  messages, no current turn, not streaming, no error. The turns appended before it are
  gone.
\<close>

theorem clearMessages_resets:
  "clearMessages s = initialState \<and> chatReducer s CLEAR_MESSAGES = initialState
   \<and> messages (clearMessages s) = [] \<and> currentMessage (clearMessages s) = None
   \<and> \<not> isStreaming (clearMessages s) \<and> error (clearMessages s) = None"
  by (simp add: clearMessages_def initialState_def)

section \<open>The streaming flag\<close>

lemma guard_reducer:
  "isStreaming s \<longrightarrow> in_flight s \<Longrightarrow>
   isStreaming (chatReducer s a) \<longrightarrow> in_flight (chatReducer s a)"
  by (cases a) (auto simp: in_flight_def Let_def initialState_def split: option.splits)

lemma guard_event:
  "isStreaming s \<longrightarrow> in_flight s \<Longrightarrow>
   isStreaming (handleStreamEvent s ev) \<longrightarrow> in_flight (handleStreamEvent s ev)"
  by (cases ev)
     (simp_all add: clearError_def addStep_def updateStep_def setFinalAnswer_def
        completeMessage_def setError_def guard_reducer del: chatReducer.simps)

text \<open>
  C2. After \<^verbatim>\<open>sendMessage\<close> and then \<^verbatim>\<open>stopStreaming\<close> the state is reachable, its
  \<^verbatim>\<open>currentMessage\<close> is present with status \<^verbatim>\<open>thinking\<close>, and \<^verbatim>\<open>isStreaming\<close> is false: the
  equivalence fails from right to left.
\<close>

theorem streaming_flag_counterexample:
  "reachable (stopStreaming example_thinking)
   \<and> \<not> (isStreaming (stopStreaming example_thinking)
           \<longleftrightarrow> in_flight (stopStreaming example_thinking))"
proof -
  have r: "reachable (stopStreaming example_thinking)"
    by (rule reach_stop [OF reachable_example_thinking])
  have "\<not> (isStreaming (stopStreaming example_thinking)
            \<longleftrightarrow> in_flight (stopStreaming example_thinking))"
    by (simp add: example_thinking_eq stopStreaming_def controller_stopStreaming_def
        in_flight_def)
  with r show ?thesis by simp
qed

text \<open>
  C2, as the code has it. In every state reachable from the initial state through
  \<^verbatim>\<open>sendMessage\<close>, \<^verbatim>\<open>stopStreaming\<close> and decoded events, if \<^verbatim>\<open>isStreaming\<close> is true then
  \<^verbatim>\<open>currentMessage\<close> is present and its status is neither \<^verbatim>\<open>completed\<close> nor \<^verbatim>\<open>error\<close>.
\<close>

theorem streaming_implies_in_flight:
  assumes "reachable s" and "isStreaming s"
  shows "in_flight s"
proof -
  from assms(1) have "isStreaming s \<longrightarrow> in_flight s"
  proof (induction rule: reachable.induct)
    case reach_init
    show ?case by (simp add: initialState_def)
  next
    case (reach_send s q messageId now)
    then show ?case
      by (simp add: sendMessage_begin_def setError_def startStreaming_def guard_reducer
          del: chatReducer.simps)
  next
    case (reach_stop s)
    then show ?case
      by (simp add: stopStreaming_def controller_stopStreaming_def)
  next
    case (reach_event s ev)
    from reach_event.IH show ?case by (rule guard_event)
  qed
  with assms(2) show ?thesis by simp
qed

theorem streaming_implies_in_flight_witness:
  "reachable example_thinking \<and> isStreaming example_thinking \<and> in_flight example_thinking"
proof -
  have i: "isStreaming example_thinking" by (simp add: example_thinking_eq)
  from streaming_implies_in_flight [OF reachable_example_thinking i]
    reachable_example_thinking i
  show ?thesis by simp
qed

section \<open>Submitting while a turn is streaming\<close>

text \<open>
  C3. While the example turn is streaming, \<^verbatim>\<open>sendMessage\<close> with the question \<^verbatim>\<open>Q2\<close> is
  not rejected: \<^verbatim>\<open>currentMessage\<close> is no longer the turn that was in flight.
\<close>

theorem send_while_streaming_counterexample:
  "isStreaming example_streaming
   \<and> currentMessage (sendMessage_begin example_streaming ''Q2'' ''msg_2'' ''t5'')
       \<noteq> currentMessage example_streaming"
  by (simp add: example_streaming_eq example_turn_def sendMessage_begin_def trim_Q2
        startStreaming_def)

text \<open>
  C3, as the code has it. In every state in which \<^verbatim>\<open>isStreaming\<close> is true, a submit is
  rejected by the caller, the input widget's \<^verbatim>\<open>handleSubmit\<close>, which returns without
  calling \<^verbatim>\<open>sendMessage\<close> and leaves the whole state unchanged. The controller's
  \<^verbatim>\<open>sendMessage\<close> has no such guard: called there with a non-blank question it replaces
  \<^verbatim>\<open>currentMessage\<close> by a new turn in status \<^verbatim>\<open>thinking\<close> and clears \<^verbatim>\<open>error\<close>.
\<close>

theorem submit_guarded_by_caller:
  assumes "isStreaming s"
  shows "handleSubmit parse s q messageId now resp = s
     \<and> (trim q \<noteq> [] \<longrightarrow>
          sendMessage_begin s q messageId now =
            s\<lparr>currentMessage :=
                 Some \<lparr>msg_id = messageId, question = q, answer = None, steps = [],
                       status = thinking, execution_time = None, msg_timestamp = now,
                       error_message = None\<rparr>,
               isStreaming := True, error := None\<rparr>)"
  using assms by (simp add: handleSubmit_def sendMessage_begin_def startStreaming_def)

theorem submit_guarded_by_caller_witness:
  "isStreaming example_streaming \<and> trim ''Q2'' \<noteq> []
   \<and> handleSubmit (\<lambda>x. None) example_streaming ''Q2'' ''msg_2'' ''t5'' (body [] None)
        = example_streaming
   \<and> currentMessage (sendMessage_begin example_streaming ''Q2'' ''msg_2'' ''t5'')
        = Some \<lparr>msg_id = ''msg_2'', question = ''Q2'', answer = None, steps = [],
                 status = thinking, execution_time = None, msg_timestamp = ''t5'',
                 error_message = None\<rparr>"
proof -
  have i: "isStreaming example_streaming" by (simp add: example_streaming_eq)
  have t: "trim ''Q2'' \<noteq> []" by (simp add: trim_Q2)
  from submit_guarded_by_caller
         [where parse = "\<lambda>x. None" and q = "''Q2''" and messageId = "''msg_2''"
            and now = "''t5''" and resp = "body [] None", OF i] i t
  show ?thesis by simp
qed

section \<open>Reconnection backoff\<close>

lemma four_Suc: "(4::nat) = Suc (Suc (Suc (Suc 0)))"
  by simp

text \<open>
  C9. With the maximum of 3 attempts, the call of \<^verbatim>\<open>handleConnectionError\<close> that makes
  attempt \<open>n\<close> (for \<open>1 \<le> n \<le> 3\<close>) counts the attempt, announces it and sets the timer to
  \<open>min(1000 * 2^(n-1), 10000)\<close> milliseconds; once 3 attempts are used up, the call sets
  no timer, leaves the service as it is and reports the terminal connection error.
  Four failures in a row on a new service wait 1000, 2000 and 4000 milliseconds and
  then give up.
\<close>

theorem backoff_delay_bounded:
  assumes "maxReconnectAttempts sv = 3"
  shows "(1 \<le> n \<and> n \<le> 3 \<and> reconnectAttempts sv = n - 1 \<longrightarrow>
            handleConnectionError sv =
              (sv\<lparr>reconnectAttempts := n,
                  reconnectTimeout := Some (spec_backoff 1000 10000 n)\<rparr>,
               [notifyStatusChange connecting (reconnecting_notice n 3),
                setTimeout_reconnect (spec_backoff 1000 10000 n)]))
     \<and> (3 \<le> reconnectAttempts sv \<longrightarrow>
            handleConnectionError sv =
              (sv, [notifyStatusChange connection_error
                      (plain_notice ''Connection failed after maximum retry attempts'')]))
     \<and> snd (connection_errors 4 new_StreamingService) =
         [notifyStatusChange connecting (reconnecting_notice 1 3), setTimeout_reconnect 1000,
          notifyStatusChange connecting (reconnecting_notice 2 3), setTimeout_reconnect 2000,
          notifyStatusChange connecting (reconnecting_notice 3 3), setTimeout_reconnect 4000,
          notifyStatusChange connection_error
            (plain_notice ''Connection failed after maximum retry attempts'')]"
proof -
  have seq: "snd (connection_errors 4 new_StreamingService) =
         [notifyStatusChange connecting (reconnecting_notice 1 3), setTimeout_reconnect 1000,
          notifyStatusChange connecting (reconnecting_notice 2 3), setTimeout_reconnect 2000,
          notifyStatusChange connecting (reconnecting_notice 3 3), setTimeout_reconnect 4000,
          notifyStatusChange connection_error
            (plain_notice ''Connection failed after maximum retry attempts'')]"
    unfolding four_Suc
    by (simp add: handleConnectionError_def new_StreamingService_def Let_def)
  from assms have "1 \<le> n \<and> n \<le> 3 \<and> reconnectAttempts sv = n - 1 \<longrightarrow>
            handleConnectionError sv =
              (sv\<lparr>reconnectAttempts := n,
                  reconnectTimeout := Some (spec_backoff 1000 10000 n)\<rparr>,
               [notifyStatusChange connecting (reconnecting_notice n 3),
                setTimeout_reconnect (spec_backoff 1000 10000 n)])"
    by (auto simp: handleConnectionError_def spec_backoff_def Let_def)
  moreover from assms have "3 \<le> reconnectAttempts sv \<longrightarrow>
            handleConnectionError sv =
              (sv, [notifyStatusChange connection_error
                      (plain_notice ''Connection failed after maximum retry attempts'')])"
    by (simp add: handleConnectionError_def)
  ultimately show ?thesis using seq by blast
qed

theorem backoff_delay_bounded_witness:
  "maxReconnectAttempts new_StreamingService = 3
   \<and> reconnectAttempts new_StreamingService = 1 - 1
   \<and> handleConnectionError new_StreamingService =
       (new_StreamingService\<lparr>reconnectAttempts := 1, reconnectTimeout := Some 1000\<rparr>,
        [notifyStatusChange connecting (reconnecting_notice 1 3), setTimeout_reconnect 1000])
   \<and> 3 \<le> reconnectAttempts (new_StreamingService\<lparr>reconnectAttempts := 3\<rparr>)
   \<and> handleConnectionError (new_StreamingService\<lparr>reconnectAttempts := 3\<rparr>) =
       (new_StreamingService\<lparr>reconnectAttempts := 3\<rparr>,
        [notifyStatusChange connection_error
           (plain_notice ''Connection failed after maximum retry attempts'')])"
proof -
  have m: "maxReconnectAttempts new_StreamingService = 3"
    and m3: "maxReconnectAttempts (new_StreamingService\<lparr>reconnectAttempts := 3\<rparr>) = 3"
    and r: "reconnectAttempts new_StreamingService = 1 - 1"
    and r3: "3 \<le> reconnectAttempts (new_StreamingService\<lparr>reconnectAttempts := 3\<rparr>)"
    by (simp_all add: new_StreamingService_def)
  have b: "spec_backoff 1000 10000 1 = 1000" by (simp add: spec_backoff_def)
  from backoff_delay_bounded [OF m, where n = 1] backoff_delay_bounded [OF m3, where n = 1]
    m r r3 b
  show ?thesis by simp
qed

section \<open>Framing and the decode loop\<close>

subsection \<open>Splitting at blank lines\<close>

lemma split_nn_induct [case_names Nil One Two]:
  assumes "P []" and "\<And>c. P [c]"
    and "\<And>c d cs. (c = CHR 0x0A \<and> d = CHR 0x0A \<Longrightarrow> P cs)
           \<Longrightarrow> (\<not> (c = CHR 0x0A \<and> d = CHR 0x0A) \<Longrightarrow> P (d # cs)) \<Longrightarrow> P (c # d # cs)"
  shows "P s"
  by (rule split_from.induct [of "\<lambda>cur s. P s" "[]" s]) (use assms in auto)

lemma split_from_cur:
  "split_from cur s = (cur @ hd (split_from [] s)) # tl (split_from [] s)"
proof (induction s arbitrary: cur rule: split_nn_induct)
  case Nil
  show ?case by simp
next
  case (One c)
  show ?case by simp
next
  case (Two c d cs)
  show ?case
  proof (cases "c = CHR 0x0A \<and> d = CHR 0x0A")
    case True
    then show ?thesis by simp
  next
    case False
    from False have "split_from cur (c # d # cs) = split_from (cur @ [c]) (d # cs)"
      by auto
    also have "\<dots> = ((cur @ [c]) @ hd (split_from [] (d # cs))) # tl (split_from [] (d # cs))"
      using False by (rule Two(2))
    finally have L: "split_from cur (c # d # cs)
        = (cur @ c # hd (split_from [] (d # cs))) # tl (split_from [] (d # cs))"
      by simp
    from False have "split_from [] (c # d # cs) = split_from [c] (d # cs)"
      by auto
    also have "\<dots> = ([c] @ hd (split_from [] (d # cs))) # tl (split_from [] (d # cs))"
      using False by (rule Two(2))
    finally have R: "split_from [] (c # d # cs)
        = (c # hd (split_from [] (d # cs))) # tl (split_from [] (d # cs))"
      by simp
    show ?thesis unfolding L R by simp
  qed
qed

lemma split_nn_Nil: "split_nn [] = [[]]"
  by (simp add: split_nn_def)

lemma split_nn_One: "split_nn [c] = [[c]]"
  by (simp add: split_nn_def)

lemma split_nn_Two:
  "split_nn (c # d # cs) =
     (if c = CHR 0x0A \<and> d = CHR 0x0A then [] # split_nn cs
      else (c # hd (split_nn (d # cs))) # tl (split_nn (d # cs)))"
  unfolding split_nn_def using split_from_cur [of "[c]" "d # cs"] by simp

lemmas split_nn_simps = split_nn_Nil split_nn_One split_nn_Two

lemma split_nn_nonempty: "split_nn s \<noteq> []"
  by (induction s rule: split_nn_induct) (simp_all add: split_nn_simps)

lemma split_nn_single: "length (split_nn s) = 1 \<Longrightarrow> split_nn s = [s]"
proof (induction s rule: split_nn_induct)
  case Nil
  show ?case by (simp add: split_nn_simps)
next
  case (One c)
  show ?case by (simp add: split_nn_simps)
next
  case (Two c d cs)
  show ?case
  proof (cases "c = CHR 0x0A \<and> d = CHR 0x0A")
    case True
    with Two.prems split_nn_nonempty [of cs] show ?thesis by (simp add: split_nn_simps)
  next
    case False
    obtain y ys where Y: "split_nn (d # cs) = y # ys"
      using split_nn_nonempty [of "d # cs"] by (cases "split_nn (d # cs)") auto
    from False Two.prems Y have "ys = []"
      by (auto simp: split_nn_Two split: if_splits)
    with Y Two.IH(2) False have "y = d # cs" by simp
    with False Y \<open>ys = []\<close> show ?thesis by (simp add: split_nn_Two)
  qed
qed

lemma split_nn_append:
  "split_nn (a @ b) = butlast (split_nn a) @ split_nn (last (split_nn a) @ b)"
proof (induction a rule: split_nn_induct)
  case Nil
  show ?case by (simp add: split_nn_simps)
next
  case (One c)
  show ?case by (simp add: split_nn_simps)
next
  case (Two c d cs)
  show ?case
  proof (cases "c = CHR 0x0A \<and> d = CHR 0x0A")
    case True
    with Two.IH(1) split_nn_nonempty [of cs] show ?thesis by (simp add: split_nn_Two)
  next
    case False
    obtain y ys where Y: "split_nn (d # cs) = y # ys"
      using split_nn_nonempty [of "d # cs"] by (cases "split_nn (d # cs)") auto
    from False have L: "split_nn ((c # d # cs) @ b)
        = (c # hd (split_nn ((d # cs) @ b))) # tl (split_nn ((d # cs) @ b))"
      by (simp add: split_nn_Two)
    from Two.IH(2) False
    have X: "split_nn ((d # cs) @ b) = butlast (y # ys) @ split_nn (last (y # ys) @ b)"
      by (simp add: Y)
    show ?thesis
    proof (cases ys)
      case Nil
      with Y have "length (split_nn (d # cs)) = 1" by simp
      then have "split_nn (d # cs) = [d # cs]" by (rule split_nn_single)
      with Y Nil have y: "y = d # cs" by simp
      from False Y Nil have "split_nn (c # d # cs) = [c # y]" by (simp add: split_nn_Two)
      with y L show ?thesis by simp
    next
      case (Cons z zs)
      from False Y Cons have A: "split_nn (c # d # cs) = (c # y) # z # zs"
        by (simp add: split_nn_Two)
      from X Cons have "split_nn ((d # cs) @ b)
          = y # butlast (z # zs) @ split_nn (last (z # zs) @ b)"
        by simp
      with L A show ?thesis by simp
    qed
  qed
qed

lemma split_nn_last: "split_nn (last (split_nn a)) = [last (split_nn a)]"
proof -
  have "butlast (split_nn a) @ [last (split_nn a)]
          = butlast (split_nn a) @ split_nn (last (split_nn a))"
    using split_nn_append [of a "[]"] split_nn_nonempty [of a] by simp
  then show ?thesis by simp
qed

subsection \<open>The read loop over chunks\<close>

lemma for_events_append:
  "for_events parse s (xs @ ys) = for_events parse (for_events parse s xs) ys"
  by (induction xs arbitrary: s) simp_all

lemma read_loop_whole:
  "split_nn acc = [acc] \<Longrightarrow>
   read_loop parse acc s chunks = for_events parse s (butlast (split_nn (acc @ concat chunks)))"
proof (induction chunks arbitrary: acc s)
  case Nil
  then show ?case by simp
next
  case (Cons chunk chunks)
  let ?ev = "split_nn (acc @ chunk)"
  have "read_loop parse acc s (chunk # chunks)
      = read_loop parse (last ?ev) (for_events parse s (butlast ?ev)) chunks"
    by (simp add: Let_def)
  also have "\<dots> = for_events parse (for_events parse s (butlast ?ev))
                     (butlast (split_nn (last ?ev @ concat chunks)))"
    by (rule Cons.IH) (rule split_nn_last)
  also have "\<dots> = for_events parse s
                     (butlast (butlast ?ev @ split_nn (last ?ev @ concat chunks)))"
    by (simp add: for_events_append butlast_append split_nn_nonempty)
  also have "butlast ?ev @ split_nn (last ?ev @ concat chunks)
               = split_nn ((acc @ chunk) @ concat chunks)"
    by (rule split_nn_append [symmetric])
  finally show ?case by simp
qed

lemma read_loop_records:
  "read_loop parse [] s chunks = for_events parse s (butlast (split_nn (concat chunks)))"
  using read_loop_whole [of "[]" parse s chunks] by (simp add: split_nn_Nil)

lemma malformed_skipped: "malformed parse r \<Longrightarrow> process_record parse s r = s"
  by (simp add: malformed_def process_record_def)

lemma split_around_record:
  assumes "single_record r" and "at_record_boundary p"
  shows "butlast (split_nn (p @ r @ blank_line @ q))
           = butlast (split_nn p) @ r # butlast (split_nn q)"
    and "butlast (split_nn (p @ q)) = butlast (split_nn p) @ butlast (split_nn q)"
proof -
  from assms(2) have p: "split_nn (p @ x) = butlast (split_nn p) @ split_nn x" for x
    using split_nn_append [of p x] by (simp add: at_record_boundary_def)
  from assms(1) have "split_nn ((r @ blank_line) @ q) = r # split_nn q"
    using split_nn_append [of "r @ blank_line" q] by (simp add: single_record_def)
  then have "split_nn (p @ r @ blank_line @ q) = butlast (split_nn p) @ r # split_nn q"
    using p [of "r @ blank_line @ q"] by simp
  then show "butlast (split_nn (p @ r @ blank_line @ q))
           = butlast (split_nn p) @ r # butlast (split_nn q)"
    by (simp add: butlast_append split_nn_nonempty)
  show "butlast (split_nn (p @ q)) = butlast (split_nn p) @ butlast (split_nn q)"
    by (simp add: p butlast_append split_nn_nonempty)
qed

lemma read_loop_skips:
  assumes "malformed parse bad" and "single_record bad" and "at_record_boundary p"
    and "concat chunks1 = p @ bad @ blank_line @ q" and "concat chunks2 = p @ q"
  shows "read_loop parse [] s chunks1
           = for_events parse s (butlast (split_nn p) @ butlast (split_nn q))"
    and "read_loop parse [] s chunks2
           = for_events parse s (butlast (split_nn p) @ butlast (split_nn q))"
  using assms split_around_record [OF assms(2,3), of q]
  by (simp_all add: read_loop_records for_events_append malformed_skipped)

subsection \<open>The example stream, evaluated\<close>

lemma example_bad_malformed: "malformed example_parse example_bad_record"
  by (simp add: malformed_def example_bad_record_def startsWith_def substring_def trim_def
      isWhiteSpace_def example_parse_def example_finish_json_def example_complete_json_def
      quoted_def)

lemma example_bad_single: "single_record example_bad_record"
  by (simp add: single_record_def example_bad_record_def blank_line_def split_nn_def)

lemma example_prefix_split: "split_nn example_prefix = [example_finish_record, []]"
  by (simp add: split_nn_def example_prefix_def example_finish_record_def
      example_finish_json_def quoted_def blank_line_def)

lemma example_suffix_split: "split_nn example_suffix = [example_complete_record, []]"
  by (simp add: split_nn_def example_suffix_def example_complete_record_def
      example_complete_json_def quoted_def blank_line_def)

lemma example_prefix_boundary: "at_record_boundary example_prefix"
  by (simp add: at_record_boundary_def example_prefix_split)

lemma example_records:
  "process_record example_parse s example_finish_record
     = handleStreamEvent s (agent_finish ''USA'' 1 ''t2'')"
  "process_record example_parse s example_complete_record
     = handleStreamEvent s (execution_complete ''t3'')"
  by (simp_all add: process_record_def startsWith_def substring_def trim_def isWhiteSpace_def
      example_parse_def example_finish_record_def example_complete_record_def
      example_finish_json_def example_complete_json_def quoted_def)

lemma example_chunks:
  "concat [butlast example_prefix,
           CHR 0x0A # example_bad_record @ blank_line @ example_suffix]
     = example_prefix @ example_bad_record @ blank_line @ example_suffix"
  by (simp add: example_prefix_def blank_line_def butlast_append)

text \<open>
  C8. Let a stream hold a malformed record (data marker, payload that does not parse)
  that is one record of the framing and starts at a record boundary, after the text \<open>p\<close>
  and before the text \<open>q\<close>. However the reader cuts the stream into chunks, the decode loop
  ends in the state it reaches on the stream without that record, which is the state
  after handling the records of \<open>p\<close> and then the records of \<open>q\<close>, in order: the bad record
  is skipped and the records after it are still processed. The same holds for
  \<^verbatim>\<open>sendMessage\<close> run on the two bodies.
\<close>

theorem malformed_record_skipped:
  assumes "malformed parse bad" and "single_record bad" and "at_record_boundary p"
    and "concat chunks1 = p @ bad @ blank_line @ q" and "concat chunks2 = p @ q"
  shows "read_loop parse [] s chunks1 = read_loop parse [] s chunks2
     \<and> read_loop parse [] s chunks1
         = for_events parse s (butlast (split_nn p) @ butlast (split_nn q))
     \<and> sendMessage parse s qn messageId now (body chunks1 fin)
         = sendMessage parse s qn messageId now (body chunks2 fin)"
proof -
  have eq: "read_loop parse [] t chunks1 = read_loop parse [] t chunks2" for t
    using read_loop_skips [OF assms] by simp
  have "sendMessage parse s qn messageId now (body chunks1 fin)
         = sendMessage parse s qn messageId now (body chunks2 fin)"
    by (simp add: sendMessage_def eq)
  with eq read_loop_skips(1) [OF assms] show ?thesis by simp
qed

theorem malformed_record_skipped_witness:
  "malformed example_parse example_bad_record \<and> single_record example_bad_record
   \<and> at_record_boundary example_prefix
   \<and> read_loop example_parse [] example_streaming
        [butlast example_prefix,
         CHR 0x0A # example_bad_record @ blank_line @ example_suffix]
      = read_loop example_parse [] example_streaming [example_prefix @ example_suffix]
   \<and> read_loop example_parse [] example_streaming
        [butlast example_prefix,
         CHR 0x0A # example_bad_record @ blank_line @ example_suffix]
      = \<lparr>messages = [example_turn\<lparr>answer := Some ''USA'', status := completed\<rparr>],
         currentMessage = None, isStreaming = False, error = None\<rparr>"
proof -
  have c2: "concat [example_prefix @ example_suffix] = example_prefix @ example_suffix"
    by simp
  note w = malformed_record_skipped
             [OF example_bad_malformed example_bad_single example_prefix_boundary
                 example_chunks c2,
              where s = example_streaming and qn = "''Q1''" and messageId = "''msg_1''"
                and now = "''t0''" and fin = None]
  have fe: "for_events example_parse example_streaming
          (butlast (split_nn example_prefix) @ butlast (split_nn example_suffix))
        = \<lparr>messages = [example_turn\<lparr>answer := Some ''USA'', status := completed\<rparr>],
           currentMessage = None, isStreaming = False, error = None\<rparr>"
    by (simp add: example_prefix_split example_suffix_split example_records
        example_streaming_eq example_turn_def setFinalAnswer_def completeMessage_def Let_def)
  note same = w [THEN conjunct1]
  note final = trans [OF w [THEN conjunct2, THEN conjunct1] fe]
  show ?thesis
    by (intro conjI example_bad_malformed example_bad_single example_prefix_boundary
        same final)
qed

end
